theory Spec2Isabelle
  imports Main "HOL-Library.Word" "HOL-Library.Multiset"
begin

unbundle bit_operations_syntax

section \<open>JavaScript strings and numbers\<close>

text \<open>
  A JavaScript string is a sequence of UTF-16 code units; \<open>length\<close>, \<open>startsWith\<close>,
  \<open>endsWith\<close> and the regular expressions of the logger all work on code units.
  The counters of the logger (\<open>currentFileSize\<close>, \<open>currentFileIndex\<close>) only ever hold
  non-negative integers and are modelled as \<open>nat\<close>; the two numeric options supplied by
  the caller are modelled as \<open>int\<close>. Both are exact for JavaScript numbers below
  \<open>2 ^ 53\<close>; rounding of larger values is outside this model.
\<close>

type_synonym code_unit = "16 word"
type_synonym jsstring = "code_unit list"

definition lit :: "string \<Rightarrow> jsstring" where
  "lit s = map (\<lambda>c. of_nat (of_char c)) s"

definition startsWith :: "jsstring \<Rightarrow> jsstring \<Rightarrow> bool" where
  "startsWith s p = (take (length p) s = p)"

definition endsWith :: "jsstring \<Rightarrow> jsstring \<Rightarrow> bool" where
  "endsWith s p = (length p \<le> length s \<and> drop (length s - length p) s = p)"

definition padStart :: "jsstring \<Rightarrow> nat \<Rightarrow> code_unit \<Rightarrow> jsstring" where
  "padStart s n c = replicate (n - length s) c @ s"

definition digit_unit :: "nat \<Rightarrow> code_unit" where
  "digit_unit d = of_nat (48 + d)"

text \<open>\<open>String(n)\<close> for a non-negative integer: its decimal digits.\<close>

fun String_nat :: "nat \<Rightarrow> jsstring" where
  "String_nat n = (if n < 10 then [digit_unit n]
                   else String_nat (n div 10) @ [digit_unit (n mod 10)])"

declare String_nat.simps [simp del]

definition String_int :: "int \<Rightarrow> jsstring" where
  "String_int i = (if i < 0 then lit ''-'' @ String_nat (nat (- i)) else String_nat (nat i))"

text \<open>The regular-expression class \<open>\d\<close>: the ASCII digits.\<close>

definition isDigit :: "code_unit \<Rightarrow> bool" where
  "isDigit c = (48 \<le> unat c \<and> unat c \<le> 57)"

text \<open>\<open>parseInt(ds, 10)\<close> on a string of digits, most significant first.\<close>

definition parseInt :: "jsstring \<Rightarrow> nat" where
  "parseInt ds = foldl (\<lambda>acc c. 10 * acc + (unat c - 48)) 0 ds"

text \<open>
  \<open>file.match(/S(\d+)\.log$/)\<close> for a one-unit separator \<open>S\<close> that is not a digit
  (\<open>.\<close> or \<open>-\<close>): the name must end in \<open>.log\<close>, the run of digits directly before
  that suffix must be non-empty, and the unit directly before the run must be \<open>S\<close>.
  The result is the first capture group.
\<close>

definition matchSepDigitsLog :: "code_unit \<Rightarrow> jsstring \<Rightarrow> jsstring option" where
  "matchSepDigitsLog sep file =
     (if endsWith file (lit ''.log'') then
        (let body = take (length file - 4) file;
             ds = rev (takeWhile isDigit (rev body));
             rest = take (length body - length ds) body
         in if ds \<noteq> [] \<and> rest \<noteq> [] \<and> last rest = sep then Some ds else None)
      else None)"

text \<open>
  \<open>TextEncoder.encodeInto\<close>: the UTF-8 bytes of a string. A surrogate pair is one
  code point of four bytes; a lone surrogate is replaced by U+FFFD.
\<close>

fun utf8_encode :: "jsstring \<Rightarrow> 8 word list" where
  "utf8_encode [] = []"
| "utf8_encode (c # cs) =
     (if c < 0x80 then ucast c # utf8_encode cs
      else if c < 0x800 then
        (0xC0 OR ucast (drop_bit 6 c)) # (0x80 OR ucast (c AND 0x3F)) # utf8_encode cs
      else if 0xD800 \<le> c \<and> c < 0xDC00 then
        (case cs of
           [] \<Rightarrow> [0xEF, 0xBF, 0xBD]
         | d # ds \<Rightarrow>
             if 0xDC00 \<le> d \<and> d < 0xE000 then
               (let cp = 0x10000 + push_bit 10 (ucast (c AND 0x3FF) :: 32 word)
                           + ucast (d AND 0x3FF)
                in [0xF0 OR ucast (drop_bit 18 cp),
                    0x80 OR ucast (drop_bit 12 cp AND 0x3F),
                    0x80 OR ucast (drop_bit 6 cp AND 0x3F),
                    0x80 OR ucast (cp AND 0x3F)] @ utf8_encode ds)
             else [0xEF, 0xBF, 0xBD] @ utf8_encode cs)
      else if 0xDC00 \<le> c \<and> c < 0xE000 then [0xEF, 0xBF, 0xBD] @ utf8_encode cs
      else (0xE0 OR ucast (drop_bit 12 c)) # (0x80 OR ucast (drop_bit 6 c AND 0x3F))
             # (0x80 OR ucast (c AND 0x3F)) # utf8_encode cs)"

section \<open>Dates and entry formatting\<close>

record Date =
  getFullYear :: int
  getMonth :: nat
  getDate :: nat
  getHours :: nat
  getMinutes :: nat
  getSeconds :: nat
  getMilliseconds :: nat

definition formatDate :: "Date \<Rightarrow> jsstring" where
  "formatDate date =
     (let year = getFullYear date;
          month = padStart (String_nat (getMonth date + 1)) 2 (digit_unit 0);
          day = padStart (String_nat (getDate date)) 2 (digit_unit 0)
      in String_int year @ lit ''-'' @ month @ lit ''-'' @ day)"

definition formatTimestamp :: "Date \<Rightarrow> jsstring" where
  "formatTimestamp date =
     (let year = getFullYear date;
          month = padStart (String_nat (getMonth date + 1)) 2 (digit_unit 0);
          day = padStart (String_nat (getDate date)) 2 (digit_unit 0);
          hours = padStart (String_nat (getHours date)) 2 (digit_unit 0);
          minutes = padStart (String_nat (getMinutes date)) 2 (digit_unit 0);
          seconds = padStart (String_nat (getSeconds date)) 2 (digit_unit 0);
          ms = padStart (String_nat (getMilliseconds date)) 3 (digit_unit 0)
      in String_int year @ lit ''/'' @ month @ lit ''/'' @ day @ lit '' '' @ hours @ lit '':''
           @ minutes @ lit '':'' @ seconds @ lit ''.'' @ ms)"

text \<open>
  \<open>LogLevel\<close> is a numeric enum; a caller may pass any number, which takes the
  \<open>default\<close> branch.
\<close>

datatype LogLevel = Debug | Info | Warning | Error | Unrecognized int

fun getLevelString :: "LogLevel \<Rightarrow> jsstring" where
  "getLevelString Debug = lit ''DEBUG''"
| "getLevelString Info = lit ''INFO ''"
| "getLevelString Warning = lit ''WARN ''"
| "getLevelString Error = lit ''ERROR''"
| "getLevelString (Unrecognized n) = lit ''INFO ''"

section \<open>The file store\<close>

text \<open>
  The logger reaches the disk only through \<open>@ohos.file.fs\<close>. The store is modelled as
  the regular files it holds, keyed by full path and kept in enumeration order, the
  directories created explicitly, a clock that stamps modifications, and the set of calls
  that throw. Every call can throw; a call in \<open>faults\<close> always does. A directory exists
  when it was created or holds a file. A listing returns the names of the regular files
  directly inside the directory.
\<close>

record fsfile =
  content :: "8 word list"
  mtime :: int

datatype fsop =
    OpAccess jsstring
  | OpStat jsstring
  | OpMkdir jsstring
  | OpListFile jsstring
  | OpOpen jsstring
  | OpWrite jsstring
  | OpClose jsstring
  | OpRename jsstring jsstring
  | OpUnlink jsstring

datatype fs_error = BusinessError fsop

record world =
  files :: "(jsstring \<times> fsfile) list"
  dirs :: "jsstring list"
  faults :: "fsop list"
  clock :: int

definition slash :: code_unit where
  "slash = 47"

definition childName :: "jsstring \<Rightarrow> jsstring \<Rightarrow> jsstring option" where
  "childName dir p =
     (let pre = dir @ [slash]
      in if startsWith p pre \<and> slash \<notin> set (drop (length pre) p)
         then Some (drop (length pre) p) else None)"

definition dirExists :: "world \<Rightarrow> jsstring \<Rightarrow> bool" where
  "dirExists w d = (d \<in> set (dirs w) \<or> (\<exists>p \<in> set (map fst (files w)). startsWith p (d @ [slash])))"

definition accessSync :: "world \<Rightarrow> jsstring \<Rightarrow> fs_error + bool" where
  "accessSync w p =
     (if OpAccess p \<in> set (faults w) then Inl (BusinessError (OpAccess p))
      else Inr (map_of (files w) p \<noteq> None \<or> dirExists w p))"

text \<open>\<open>statSync\<close> returns the size in bytes and the modification time.\<close>

definition statSync :: "world \<Rightarrow> jsstring \<Rightarrow> fs_error + (nat \<times> int)" where
  "statSync w p =
     (if OpStat p \<in> set (faults w) then Inl (BusinessError (OpStat p))
      else case map_of (files w) p of
             None \<Rightarrow> Inl (BusinessError (OpStat p))
           | Some f \<Rightarrow> Inr (length (content f), mtime f))"

definition mkdirSync :: "world \<Rightarrow> jsstring \<Rightarrow> fs_error + world" where
  "mkdirSync w d =
     (if OpMkdir d \<in> set (faults w) then Inl (BusinessError (OpMkdir d))
      else Inr (w\<lparr>dirs := List.insert d (dirs w)\<rparr>))"

definition listFileSync :: "world \<Rightarrow> jsstring \<Rightarrow> fs_error + jsstring list" where
  "listFileSync w d =
     (if OpListFile d \<in> set (faults w) \<or> \<not> dirExists w d then Inl (BusinessError (OpListFile d))
      else Inr (List.map_filter (childName d) (map fst (files w))))"

text \<open>
  \<open>openSync\<close> with \<open>CREATE | READ_WRITE | APPEND\<close> creates the file when it is absent.
  The descriptor is identified with the path.
\<close>

definition openSync :: "world \<Rightarrow> jsstring \<Rightarrow> fs_error + world" where
  "openSync w p =
     (if OpOpen p \<in> set (faults w) then Inl (BusinessError (OpOpen p))
      else case map_of (files w) p of
             None \<Rightarrow> Inr (w\<lparr>files := files w @ [(p, \<lparr>content = [], mtime = clock w\<rparr>)]\<rparr>)
           | Some f \<Rightarrow> Inr w)"

definition writeSync :: "world \<Rightarrow> jsstring \<Rightarrow> 8 word list \<Rightarrow> fs_error + world" where
  "writeSync w p bytes =
     (if OpWrite p \<in> set (faults w) then Inl (BusinessError (OpWrite p))
      else case map_of (files w) p of
             None \<Rightarrow> Inl (BusinessError (OpWrite p))
           | Some f \<Rightarrow>
               Inr (w\<lparr>files := map (\<lambda>(q, g). if q = p
                                      then (q, g\<lparr>content := content g @ bytes, mtime := clock w\<rparr>)
                                      else (q, g)) (files w)\<rparr>))"

definition closeSync :: "world \<Rightarrow> jsstring \<Rightarrow> fs_error + world" where
  "closeSync w p =
     (if OpClose p \<in> set (faults w) then Inl (BusinessError (OpClose p)) else Inr w)"

text \<open>\<open>renameSync\<close> replaces an existing target.\<close>

definition renameSync :: "world \<Rightarrow> jsstring \<Rightarrow> jsstring \<Rightarrow> fs_error + world" where
  "renameSync w old new =
     (if OpRename old new \<in> set (faults w) then Inl (BusinessError (OpRename old new))
      else case map_of (files w) old of
             None \<Rightarrow> Inl (BusinessError (OpRename old new))
           | Some f \<Rightarrow>
               Inr (w\<lparr>files := filter (\<lambda>(q, g). q \<noteq> old \<and> q \<noteq> new) (files w) @ [(new, f)]\<rparr>))"

definition unlinkSync :: "world \<Rightarrow> jsstring \<Rightarrow> fs_error + world" where
  "unlinkSync w p =
     (if OpUnlink p \<in> set (faults w) then Inl (BusinessError (OpUnlink p))
      else case map_of (files w) p of
             None \<Rightarrow> Inl (BusinessError (OpUnlink p))
           | Some f \<Rightarrow> Inr (w\<lparr>files := filter (\<lambda>(q, g). q \<noteq> p) (files w)\<rparr>))"

section \<open>The logger\<close>

text \<open>
  The static fields of the class \<open>TurboLog\<close> are a record that every operation takes
  and returns, together with the file store. Calls to the diagnostic logger (\<open>hilog\<close>)
  have no effect on either and are left out. An exception caught by a \<open>try\<close> block is
  the \<open>Inl\<close> branch of the call that threw.
\<close>

record ConfigureOptions =
  opt_dailyRolling :: "bool option"
  opt_logsDirectory :: "jsstring option"
  opt_maximumFileSize :: "int option"
  opt_maximumNumberOfFiles :: "int option"
  opt_logPrefix :: "jsstring option"

record InternalConfig =
  dailyRolling :: bool
  logsDirectory :: jsstring
  maximumFileSize :: int
  maximumNumberOfFiles :: int
  logPrefix :: jsstring

record TurboLog =
  config :: "InternalConfig option"
  currentLogFile :: jsstring
  currentDate :: jsstring
  currentFileSize :: nat
  currentFileIndex :: nat

definition ensureLogsDirectory :: "TurboLog \<Rightarrow> world \<Rightarrow> world" where
  "ensureLogsDirectory s w =
     (case config s of
        None \<Rightarrow> w
      | Some c \<Rightarrow>
          if logsDirectory c = [] then w
          else (case accessSync w (logsDirectory c) of
                  Inl err \<Rightarrow> w
                | Inr ex \<Rightarrow>
                    if \<not> ex then (case mkdirSync w (logsDirectory c) of
                                     Inl err \<Rightarrow> w
                                   | Inr w' \<Rightarrow> w')
                    else w))"

definition liveFileName :: "jsstring \<Rightarrow> jsstring" where
  "liveFileName prefix = prefix @ lit ''-latest.log''"

text \<open>The body of the \<open>for\<close> loop of \<open>findCurrentFileIndex\<close>, for one directory entry.\<close>

definition scanEntry :: "jsstring \<Rightarrow> jsstring \<Rightarrow> nat \<Rightarrow> nat" where
  "scanEntry prefix file maxIndex =
     (if startsWith file prefix \<and> endsWith file (lit ''.log'') \<and> file \<noteq> liveFileName prefix then
        (case (case matchSepDigitsLog 46 file of
                 Some m \<Rightarrow> Some m
               | None \<Rightarrow> matchSepDigitsLog 45 file) of
           Some m \<Rightarrow> (let index = parseInt m in if index > maxIndex then index else maxIndex)
         | None \<Rightarrow> maxIndex)
      else maxIndex)"

fun scanEntries :: "jsstring \<Rightarrow> jsstring list \<Rightarrow> nat \<Rightarrow> nat" where
  "scanEntries prefix [] maxIndex = maxIndex"
| "scanEntries prefix (file # rest) maxIndex =
     scanEntries prefix rest (scanEntry prefix file maxIndex)"

definition findCurrentFileIndex :: "TurboLog \<Rightarrow> world \<Rightarrow> TurboLog" where
  "findCurrentFileIndex s w =
     (case config s of
        None \<Rightarrow> s
      | Some c \<Rightarrow>
          (let maxIndex = (case listFileSync w (logsDirectory c) of
                             Inl err \<Rightarrow> 0
                           | Inr fs \<Rightarrow> scanEntries (logPrefix c) fs 0)
           in s\<lparr>currentFileIndex := maxIndex\<rparr>))"

definition initCurrentLogFile :: "TurboLog \<Rightarrow> world \<Rightarrow> TurboLog" where
  "initCurrentLogFile s w =
     (case config s of
        None \<Rightarrow> s
      | Some c \<Rightarrow>
          (let s1 = s\<lparr>currentLogFile := logsDirectory c @ lit ''/'' @ liveFileName (logPrefix c)\<rparr>;
               s2 = (case accessSync w (currentLogFile s1) of
                       Inl err \<Rightarrow> s1\<lparr>currentFileSize := 0\<rparr>
                     | Inr ex \<Rightarrow>
                         if ex then (case statSync w (currentLogFile s1) of
                                       Inl err \<Rightarrow> s1\<lparr>currentFileSize := 0\<rparr>
                                     | Inr st \<Rightarrow> s1\<lparr>currentFileSize := fst st\<rparr>)
                         else s1\<lparr>currentFileSize := 0\<rparr>)
           in findCurrentFileIndex s2 w))"

text \<open>The \<open>InternalConfig\<close> that \<open>configure\<close> builds: \<open>??\<close> supplies the defaults.\<close>

definition configOf :: "ConfigureOptions \<Rightarrow> InternalConfig" where
  "configOf options =
     \<lparr>dailyRolling = (case opt_dailyRolling options of None \<Rightarrow> False | Some b \<Rightarrow> b),
      logsDirectory = (case opt_logsDirectory options of None \<Rightarrow> [] | Some d \<Rightarrow> d),
      maximumFileSize = (case opt_maximumFileSize options of None \<Rightarrow> 1024 * 1024 | Some n \<Rightarrow> n),
      maximumNumberOfFiles = (case opt_maximumNumberOfFiles options of None \<Rightarrow> 5 | Some n \<Rightarrow> n),
      logPrefix = (case opt_logPrefix options of None \<Rightarrow> lit ''app'' | Some p \<Rightarrow> p)\<rparr>"

definition configure :: "ConfigureOptions \<Rightarrow> Date \<Rightarrow> TurboLog \<Rightarrow> world \<Rightarrow> TurboLog \<times> world" where
  "configure options now s w =
     (let c = configOf options;
          s1 = s\<lparr>config := Some c, currentDate := formatDate now,
                 currentFileIndex := 0, currentFileSize := 0\<rparr>;
          w1 = ensureLogsDirectory s1 w;
          s2 = initCurrentLogFile s1 w1
      in (s2, w1))"

definition optionsOf :: "InternalConfig \<Rightarrow> ConfigureOptions" where
  "optionsOf c = \<lparr>opt_dailyRolling = Some (dailyRolling c),
                  opt_logsDirectory = Some (logsDirectory c),
                  opt_maximumFileSize = Some (maximumFileSize c),
                  opt_maximumNumberOfFiles = Some (maximumNumberOfFiles c),
                  opt_logPrefix = Some (logPrefix c)\<rparr>"

definition reconfigure :: "Date \<Rightarrow> TurboLog \<Rightarrow> world \<Rightarrow> TurboLog \<times> world" where
  "reconfigure now s w =
     (case config s of
        None \<Rightarrow> (s, w)
      | Some c \<Rightarrow> configure (optionsOf c) now s w)"

definition getLogFiles :: "TurboLog \<Rightarrow> world \<Rightarrow> jsstring list" where
  "getLogFiles s w =
     (case config s of
        None \<Rightarrow> []
      | Some c \<Rightarrow>
          (case accessSync w (logsDirectory c) of
             Inl err \<Rightarrow> []
           | Inr ex \<Rightarrow>
               if \<not> ex then []
               else (case listFileSync w (logsDirectory c) of
                       Inl err \<Rightarrow> []
                     | Inr fs \<Rightarrow>
                         map (\<lambda>file. logsDirectory c @ lit ''/'' @ file)
                           (filter (\<lambda>file. endsWith file (lit ''.log'')) fs))))"

text \<open>
  The \<open>for\<close> loop of \<open>deleteLogFiles\<close>: the first \<open>unlinkSync\<close> that throws ends it, and
  the store keeps the deletions made so far.
\<close>

fun unlinkEach :: "jsstring list \<Rightarrow> world \<Rightarrow> fs_error option \<times> world" where
  "unlinkEach [] w = (None, w)"
| "unlinkEach (file # rest) w =
     (case unlinkSync w file of
        Inl err \<Rightarrow> (Some err, w)
      | Inr w' \<Rightarrow> unlinkEach rest w')"

definition deleteLogFiles :: "Date \<Rightarrow> TurboLog \<Rightarrow> world \<Rightarrow> bool \<times> TurboLog \<times> world" where
  "deleteLogFiles now s w =
     (let fs = getLogFiles s w
      in case unlinkEach fs w of
           (None, w1) \<Rightarrow> (True, reconfigure now s w1)
         | (Some err, w1) \<Rightarrow> (False, s, w1))"

definition writeToFile :: "jsstring \<Rightarrow> TurboLog \<Rightarrow> world \<Rightarrow> TurboLog \<times> world" where
  "writeToFile content_str s w =
     (if config s = None \<or> currentLogFile s = [] then (s, w)
      else case openSync w (currentLogFile s) of
             Inl err \<Rightarrow> (s, w)
           | Inr w1 \<Rightarrow>
               (case writeSync w1 (currentLogFile s) (utf8_encode content_str) of
                  Inl err \<Rightarrow> (s, w1)
                | Inr w2 \<Rightarrow>
                    (case closeSync w2 (currentLogFile s) of
                       Inl err \<Rightarrow> (s, w2)
                     | Inr w3 \<Rightarrow>
                         (s\<lparr>currentFileSize := currentFileSize s + length content_str\<rparr>, w3))))"

text \<open>The first loop of \<open>cleanupOldLogFiles\<close>: the files that count, with their times.\<close>

fun collectStats :: "world \<Rightarrow> jsstring list \<Rightarrow> (jsstring \<times> int) list" where
  "collectStats w [] = []"
| "collectStats w (file # rest) =
     (if \<not> endsWith file (lit ''-latest.log'') then
        (case statSync w file of
           Inl err \<Rightarrow> collectStats w rest
         | Inr st \<Rightarrow> (file, snd st) # collectStats w rest)
      else collectStats w rest)"

text \<open>
  The \<open>while\<close> loop of \<open>cleanupOldLogFiles\<close>; \<open>tryUnlink\<close> is its inner
  \<open>try\<close> block. \<open>shift\<close> on an empty array returns \<open>undefined\<close> and the loop goes
  round again, so the loop need not end: the model returns \<open>None\<close> when it does not.
\<close>

definition tryUnlink :: "world \<Rightarrow> jsstring \<Rightarrow> world" where
  "tryUnlink w p = (case unlinkSync w p of Inl err \<Rightarrow> w | Inr w' \<Rightarrow> w')"

partial_function (option) cleanupLoop :: "int \<Rightarrow> (jsstring \<times> int) list \<Rightarrow> world \<Rightarrow> world option" where
  "cleanupLoop maxFiles fileStats w =
     (if int (length fileStats) \<ge> maxFiles then
        (case fileStats of
           [] \<Rightarrow> cleanupLoop maxFiles [] w
         | oldest # rest \<Rightarrow> cleanupLoop maxFiles rest (tryUnlink w (fst oldest)))
      else Some w)"

declare cleanupLoop.simps [code]

definition cleanupOldLogFiles :: "TurboLog \<Rightarrow> world \<Rightarrow> world option" where
  "cleanupOldLogFiles s w =
     (case config s of
        None \<Rightarrow> Some w
      | Some c \<Rightarrow>
          (let fs = getLogFiles s w;
               fileStats = sort_key snd (collectStats w fs)
           in cleanupLoop (maximumNumberOfFiles c) fileStats w))"

definition newFileName :: "InternalConfig \<Rightarrow> TurboLog \<Rightarrow> jsstring" where
  "newFileName c s =
     (if dailyRolling c then
        logsDirectory c @ lit ''/'' @ logPrefix c @ lit ''-'' @ currentDate s @ lit ''.''
          @ String_nat (currentFileIndex s) @ lit ''.log''
      else logsDirectory c @ lit ''/'' @ logPrefix c @ lit ''-''
          @ String_nat (currentFileIndex s) @ lit ''.log'')"

definition rotateLogFile :: "TurboLog \<Rightarrow> world \<Rightarrow> (TurboLog \<times> world) option" where
  "rotateLogFile s w =
     (case config s of
        None \<Rightarrow> Some (s, w)
      | Some c \<Rightarrow>
          (let s1 = s\<lparr>currentFileIndex := currentFileIndex s + 1\<rparr>
           in case accessSync w (currentLogFile s1) of
                Inl err \<Rightarrow> Some (s1, w)
              | Inr ex \<Rightarrow>
                  (case (if ex then renameSync w (currentLogFile s1) (newFileName c s1)
                         else Inr w) of
                     Inl err \<Rightarrow> Some (s1, w)
                   | Inr w1 \<Rightarrow>
                       (let s2 = s1\<lparr>currentFileSize := 0\<rparr>
                        in case cleanupOldLogFiles s2 w1 of
                             None \<Rightarrow> None
                           | Some w2 \<Rightarrow> Some (s2, w2)))))"

definition checkAndRotate :: "Date \<Rightarrow> TurboLog \<Rightarrow> world \<Rightarrow> (TurboLog \<times> world) option" where
  "checkAndRotate now s w =
     (case config s of
        None \<Rightarrow> Some (s, w)
      | Some c \<Rightarrow>
          (let today = formatDate now;
               daily = (dailyRolling c \<and> today \<noteq> currentDate s);
               s1 = (if daily then s\<lparr>currentDate := today\<rparr> else s);
               bySize = (maximumFileSize c > 0 \<and> int (currentFileSize s1) \<ge> maximumFileSize c)
           in if daily \<or> bySize then rotateLogFile s1 w else Some (s1, w)))"

text \<open>
  \<open>write\<close> (here \<open>writeLog\<close>) reads the clock twice: once in \<open>checkAndRotate\<close> and once for the
  timestamp of the entry.
\<close>

definition logEntry :: "Date \<Rightarrow> LogLevel \<Rightarrow> jsstring \<Rightarrow> jsstring" where
  "logEntry now level message =
     formatTimestamp now @ lit '' '' @ getLevelString level @ lit '' '' @ message @ [10]"

definition writeLog :: "LogLevel \<Rightarrow> jsstring \<Rightarrow> Date \<Rightarrow> Date \<Rightarrow> TurboLog \<Rightarrow> world
                      \<Rightarrow> (TurboLog \<times> world) option" where
  "writeLog level message now1 now2 s w =
     (case config s of
        None \<Rightarrow> Some (s, w)
      | Some c \<Rightarrow>
          (case checkAndRotate now1 s w of
             None \<Rightarrow> None
           | Some (s1, w1) \<Rightarrow> Some (writeToFile (logEntry now2 level message) s1 w1)))"

section \<open>Notions of the specification and concrete instances\<close>

text \<open>
  The rotation decision in the words of the specification: rotate when daily rolling is
  enabled and the date has changed, or when a positive size limit has been reached.
\<close>

definition rotationNeeded :: "InternalConfig \<Rightarrow> TurboLog \<Rightarrow> jsstring \<Rightarrow> bool" where
  "rotationNeeded c s today =
     ((dailyRolling c \<and> today \<noteq> currentDate s)
      \<or> (maximumFileSize c > 0 \<and> int (currentFileSize s) \<ge> maximumFileSize c))"

text \<open>
  State recovery in the words of the specification. \<open>parseIndex\<close> extracts the
  trailing integer of a name that ends in \<open>.digits.log\<close> or \<open>-digits.log\<close> and is not
  the live file. The size to recover is the byte size of the live file, or 0 when it is
  absent or cannot be read; the index to recover is the highest index parsed from the
  directory entries that start with the prefix, end in \<open>.log\<close> and are not the live file,
  or 0 when there is none or the listing fails.
\<close>

definition parseIndex :: "jsstring \<Rightarrow> jsstring \<Rightarrow> nat option" where
  "parseIndex prefix file =
     (if file = liveFileName prefix then None
      else case matchSepDigitsLog 46 file of
             Some m \<Rightarrow> Some (parseInt m)
           | None \<Rightarrow> map_option parseInt (matchSepDigitsLog 45 file))"

definition rotatedEntries :: "jsstring \<Rightarrow> jsstring list \<Rightarrow> jsstring list" where
  "rotatedEntries prefix names =
     filter (\<lambda>n. startsWith n prefix \<and> endsWith n (lit ''.log'') \<and> n \<noteq> liveFileName prefix)
       names"

definition highestIndexOnDisk :: "world \<Rightarrow> jsstring \<Rightarrow> jsstring \<Rightarrow> nat" where
  "highestIndexOnDisk w dir prefix =
     (case listFileSync w dir of
        Inl err \<Rightarrow> 0
      | Inr names \<Rightarrow>
          Max (insert 0 (set (List.map_filter (parseIndex prefix) (rotatedEntries prefix names)))))"

definition liveSizeOnDisk :: "world \<Rightarrow> jsstring \<Rightarrow> nat" where
  "liveSizeOnDisk w p =
     (case map_of (files w) p of
        None \<Rightarrow> 0
      | Some f \<Rightarrow> if OpAccess p \<in> set (faults w) \<or> OpStat p \<in> set (faults w) then 0
                  else length (content f))"








text \<open>
  A path is a log file of a directory when it names an entry of that directory whose
  name ends in \<open>.log\<close>. The retention candidates are the files that
  \<open>cleanupOldLogFiles\<close> collects and counts against the limit.
\<close>

definition isLogPath :: "jsstring \<Rightarrow> jsstring \<Rightarrow> bool" where
  "isLogPath dir p =
     (case childName dir p of None \<Rightarrow> False | Some n \<Rightarrow> endsWith n (lit ''.log''))"

definition mtimeOf :: "world \<Rightarrow> jsstring \<Rightarrow> int" where
  "mtimeOf w p = (case map_of (files w) p of None \<Rightarrow> 0 | Some f \<Rightarrow> mtime f)"

definition statOK :: "world \<Rightarrow> jsstring \<Rightarrow> bool" where
  "statOK w p = (OpStat p \<notin> set (faults w) \<and> map_of (files w) p \<noteq> None)"

definition retentionCandidates :: "TurboLog \<Rightarrow> world \<Rightarrow> (jsstring \<times> int) list" where
  "retentionCandidates s w = collectStats w (getLogFiles s w)"

text \<open>
  A logger configured with directory \<open>d\<close>, prefix \<open>t\<close>, a size limit of 50 and a
  retention limit of 2, whose live file already holds 60 bytes; and the same store with
  a rename of the live file to \<open>d/t-1.log\<close> that throws.
\<close>

definition exDate :: Date where
  "exDate = \<lparr>getFullYear = 2024, getMonth = 0, getDate = 5, getHours = 1, getMinutes = 2,
             getSeconds = 3, getMilliseconds = 4\<rparr>"

definition exConfig :: InternalConfig where
  "exConfig = \<lparr>dailyRolling = False, logsDirectory = lit ''d'', maximumFileSize = 50,
               maximumNumberOfFiles = 2, logPrefix = lit ''t''\<rparr>"

definition exState :: TurboLog where
  "exState = \<lparr>config = Some exConfig, currentLogFile = lit ''d/t-latest.log'',
              currentDate = lit ''2024-01-05'', currentFileSize = 60, currentFileIndex = 0\<rparr>"

definition exWorld :: world where
  "exWorld = \<lparr>files = [(lit ''d/t-latest.log'', \<lparr>content = replicate 60 97, mtime = 5\<rparr>)],
              dirs = [lit ''d''], faults = [], clock = 7\<rparr>"

definition exWorldRenameFault :: world where
  "exWorldRenameFault =
     exWorld\<lparr>faults := [OpRename (lit ''d/t-latest.log'') (lit ''d/t-1.log'')]\<rparr>"

text \<open>The same logger before anything was written, on an empty directory.\<close>

definition exStateFresh :: TurboLog where
  "exStateFresh = exState\<lparr>currentFileSize := 0\<rparr>"

definition exWorldEmpty :: world where
  "exWorldEmpty = \<lparr>files = [], dirs = [lit ''d''], faults = [], clock = 7\<rparr>"

text \<open>
  An unconfigured logger, the options of the logger above, and a directory that holds
  the live file, two rotated files of the prefix (indices 3 and 7), a \<open>.log\<close> file of
  another prefix and a file that is not a log file.
\<close>

definition exStateInit :: TurboLog where
  "exStateInit = \<lparr>config = None, currentLogFile = [], currentDate = [],
                  currentFileSize = 0, currentFileIndex = 0\<rparr>"

definition exOptions :: ConfigureOptions where
  "exOptions = \<lparr>opt_dailyRolling = Some False, opt_logsDirectory = Some (lit ''d''),
                opt_maximumFileSize = Some 50, opt_maximumNumberOfFiles = Some 2,
                opt_logPrefix = Some (lit ''t'')\<rparr>"

definition exWorldMixed :: world where
  "exWorldMixed =
     \<lparr>files = [(lit ''d/t-latest.log'', \<lparr>content = replicate 60 97, mtime = 5\<rparr>),
               (lit ''d/t-3.log'', \<lparr>content = [], mtime = 1\<rparr>),
               (lit ''d/t-2024-01-01.7.log'', \<lparr>content = [], mtime = 2\<rparr>),
               (lit ''d/other-9.log'', \<lparr>content = [], mtime = 3\<rparr>),
               (lit ''d/t-12.txt'', \<lparr>content = [], mtime = 4\<rparr>)],
      dirs = [lit ''d''], faults = [], clock = 7\<rparr>"

text \<open>
  The mixed directory with a deletion of \<open>d/t-2024-01-01.7.log\<close> that throws. A
  directory with the live file and three rotated files, and the same with a deletion of
  the oldest that throws. A directory whose only file \<open>d/x.log\<close> cannot be read by
  \<open>statSync\<close>. The logger with a retention limit of 1, and with a limit of 0.
\<close>

definition exWorldMixedFault :: world where
  "exWorldMixedFault = exWorldMixed\<lparr>faults := [OpUnlink (lit ''d/t-2024-01-01.7.log'')]\<rparr>"

definition exWorldThree :: world where
  "exWorldThree =
     \<lparr>files = [(lit ''d/t-latest.log'', \<lparr>content = replicate 60 97, mtime = 9\<rparr>),
               (lit ''d/t-3.log'', \<lparr>content = [], mtime = 3\<rparr>),
               (lit ''d/t-1.log'', \<lparr>content = [], mtime = 1\<rparr>),
               (lit ''d/t-2.log'', \<lparr>content = [], mtime = 2\<rparr>)],
      dirs = [lit ''d''], faults = [], clock = 10\<rparr>"

definition exWorldThreeFault :: world where
  "exWorldThreeFault = exWorldThree\<lparr>faults := [OpUnlink (lit ''d/t-1.log'')]\<rparr>"

definition exWorldStatFault :: world where
  "exWorldStatFault =
     \<lparr>files = [(lit ''d/x.log'', \<lparr>content = [], mtime = 1\<rparr>)],
      dirs = [lit ''d''], faults = [OpStat (lit ''d/x.log'')], clock = 10\<rparr>"

definition exStateMax1 :: TurboLog where
  "exStateMax1 = exState\<lparr>config := Some (exConfig\<lparr>maximumNumberOfFiles := 1\<rparr>)\<rparr>"

definition exStateMax0 :: TurboLog where
  "exStateMax0 = exState\<lparr>config := Some (exConfig\<lparr>maximumNumberOfFiles := 0\<rparr>)\<rparr>"




section \<open>Basic facts about the store and the loops\<close>

lemma lit_slash: "lit ''/'' = [slash]"
  by (simp add: lit_def slash_def)

lemma tryUnlink_files:
  "files (tryUnlink w p) = (if OpUnlink p \<in> set (faults w) then files w
                            else filter (\<lambda>(q, g). q \<noteq> p) (files w))"
proof (cases "map_of (files w) p")
  case None
  then have "p \<notin> fst ` set (files w)" by (simp add: map_of_eq_None_iff)
  then have "filter (\<lambda>(q, g). q \<noteq> p) (files w) = files w"
    by (intro filter_True) (auto simp: image_iff)
  with None show ?thesis by (simp add: tryUnlink_def unlinkSync_def)
next
  case (Some f)
  then show ?thesis by (simp add: tryUnlink_def unlinkSync_def)
qed

lemma tryUnlink_rest:
  "dirs (tryUnlink w p) = dirs w" "faults (tryUnlink w p) = faults w"
  "clock (tryUnlink w p) = clock w"
  by (simp_all add: tryUnlink_def unlinkSync_def split: option.splits)

text \<open>With a positive limit the loop ends, after trying the oldest entries in order.\<close>

lemma cleanupLoop_pos:
  "0 < mx \<Longrightarrow> cleanupLoop mx fs w =
     Some (fold (\<lambda>x w. tryUnlink w (fst x)) (take (Suc (length fs) - nat mx) fs) w)"
proof (induction fs arbitrary: w)
  case Nil
  then show ?case by (subst cleanupLoop.simps) simp
next
  case (Cons x xs)
  show ?case
  proof (cases "int (length (x # xs)) \<ge> mx")
    case True
    then have "Suc (length (x # xs)) - nat mx = Suc (Suc (length xs) - nat mx)"
      using Cons.prems by auto
    then show ?thesis using True Cons.IH [OF Cons.prems]
      by (subst cleanupLoop.simps) simp
  next
    case False
    then have "Suc (length (x # xs)) - nat mx = 0" by auto
    then show ?thesis using False by (subst cleanupLoop.simps) simp
  qed
qed

text \<open>With a limit of zero or less the loop never ends.\<close>

lemma cleanupLoop_returns_pos:
  assumes "cleanupLoop mx fs w = Some r"
  shows "0 < mx"
  using assms
  by (rule cleanupLoop.raw_induct [rotated, where P = "\<lambda>mx fs w r. 0 < mx"])
     (auto split: if_splits list.splits)

lemma cleanupLoop_nonpos: "mx \<le> 0 \<Longrightarrow> cleanupLoop mx fs w = None"
  using cleanupLoop_returns_pos [of mx fs w] by (cases "cleanupLoop mx fs w") auto





lemma writeToFile_failure:
  assumes "writeToFile e s w = (s', w')"
      and "OpOpen (currentLogFile s) \<in> set (faults w) \<or> OpWrite (currentLogFile s) \<in> set (faults w)
           \<or> OpClose (currentLogFile s) \<in> set (faults w)"
    shows "s' = s"
  using assms
  by (auto simp: writeToFile_def openSync_def writeSync_def closeSync_def
           split: sum.splits if_splits option.splits)

lemma writeToFile_success:
  assumes "config s \<noteq> None" and "currentLogFile s \<noteq> []"
      and "OpOpen (currentLogFile s) \<notin> set (faults w)"
      and "OpWrite (currentLogFile s) \<notin> set (faults w)"
      and "OpClose (currentLogFile s) \<notin> set (faults w)"
      and "map_of (files w) (currentLogFile s) = Some f"
    shows "writeToFile e s w =
             (s\<lparr>currentFileSize := currentFileSize s + length e\<rparr>,
              w\<lparr>files := map (\<lambda>(q, g). if q = currentLogFile s
                                  then (q, g\<lparr>content := content g @ utf8_encode e, mtime := clock w\<rparr>)
                                  else (q, g)) (files w)\<rparr>)"
  using assms
  by (auto simp: writeToFile_def openSync_def writeSync_def closeSync_def)

lemma map_of_update_key:
  "map_of (map (\<lambda>(q, g). if q = p then (q, upd g) else (q, g)) xs) p = map_option upd (map_of xs p)"
  by (induction xs) auto

text \<open>\<open>write\<close> as one case distinction on the decision of \<open>checkAndRotate\<close>.\<close>

lemma writeLog_cases:
  assumes "config s = Some c"
  shows "writeLog level message now1 now2 s w =
           (if rotationNeeded c s (formatDate now1) then
              map_option (\<lambda>(s1, w1). writeToFile (logEntry now2 level message) s1 w1)
                (rotateLogFile (if dailyRolling c \<and> formatDate now1 \<noteq> currentDate s
                                then s\<lparr>currentDate := formatDate now1\<rparr> else s) w)
            else Some (writeToFile (logEntry now2 level message) s w))"
  using assms
  by (auto simp: writeLog_def checkAndRotate_def rotationNeeded_def Let_def
           split: option.splits)

lemma exState_config: "config exState = Some exConfig"
  by (simp add: exState_def)

section \<open>Facts about state recovery\<close>

lemma Max_insert_Max:
  assumes "finite S" and "finite T"
  shows "Max (insert (Max (insert m T)) S) = Max (insert (m::nat) (T \<union> S))"
proof (cases "S = {}")
  case True
  then show ?thesis by simp
next
  case False
  have "Max (insert m (T \<union> S)) = Max (insert m T \<union> S)" by simp
  also have "\<dots> = max (Max (insert m T)) (Max S)"
    using False assms by (intro Max_Un) auto
  also have "\<dots> = Max (insert (Max (insert m T)) S)"
    using False assms by (simp add: Max_insert)
  finally show ?thesis by simp
qed

lemma scanEntry_max:
  "scanEntry prefix file m =
     Max (insert m (set (List.map_filter (parseIndex prefix) (rotatedEntries prefix [file]))))"
  by (auto simp: scanEntry_def parseIndex_def rotatedEntries_def List.map_filter_simps Let_def max_def
           split: option.splits)

text \<open>The scan loop computes the maximum of the parsed indices and its start value.\<close>

lemma scanEntries_max:
  "scanEntries prefix names m =
     Max (insert m (set (List.map_filter (parseIndex prefix) (rotatedEntries prefix names))))"
proof (induction names arbitrary: m)
  case Nil
  then show ?case by (simp add: rotatedEntries_def List.map_filter_simps)
next
  case (Cons n ns)
  let ?S = "set (List.map_filter (parseIndex prefix) (rotatedEntries prefix ns))"
  let ?T = "set (List.map_filter (parseIndex prefix) (rotatedEntries prefix [n]))"
  have split_set:
    "set (List.map_filter (parseIndex prefix) (rotatedEntries prefix (n # ns))) = ?T \<union> ?S"
    by (auto simp: rotatedEntries_def List.map_filter_simps split: option.splits)
  have "scanEntries prefix (n # ns) m = Max (insert (scanEntry prefix n m) ?S)"
    using Cons.IH by simp
  also have "\<dots> = Max (insert (Max (insert m ?T)) ?S)"
    by (simp only: scanEntry_max)
  also have "\<dots> = Max (insert m (?T \<union> ?S))"
    by (rule Max_insert_Max) simp_all
  finally show ?case by (simp only: split_set)
qed


lemma ensureLogsDirectory_idem:
  "config s' = config s
     \<Longrightarrow> ensureLogsDirectory s' (ensureLogsDirectory s w) = ensureLogsDirectory s w"
  by (auto simp: ensureLogsDirectory_def mkdirSync_def accessSync_def dirExists_def
           split: option.splits sum.splits if_splits)

lemma initCurrentLogFile_size:
  "config s = Some c \<Longrightarrow>
     currentFileSize (initCurrentLogFile s w)
       = liveSizeOnDisk w (logsDirectory c @ lit ''/'' @ liveFileName (logPrefix c))"
  by (auto simp: initCurrentLogFile_def findCurrentFileIndex_def liveSizeOnDisk_def Let_def
                 accessSync_def statSync_def
           split: option.splits sum.splits if_splits)

lemma initCurrentLogFile_index:
  "config s = Some c \<Longrightarrow>
     currentFileIndex (initCurrentLogFile s w)
       = highestIndexOnDisk w (logsDirectory c) (logPrefix c)"
  by (auto simp: initCurrentLogFile_def findCurrentFileIndex_def highestIndexOnDisk_def Let_def
                 scanEntries_max
           split: option.splits sum.splits if_splits)

lemma initCurrentLogFile_other:
  "config s = Some c \<Longrightarrow>
     config (initCurrentLogFile s w) = Some c
     \<and> currentLogFile (initCurrentLogFile s w)
         = logsDirectory c @ lit ''/'' @ liveFileName (logPrefix c)
     \<and> currentDate (initCurrentLogFile s w) = currentDate s"
  by (auto simp: initCurrentLogFile_def findCurrentFileIndex_def Let_def
           split: option.splits sum.splits if_splits)

lemma configOf_optionsOf: "configOf (optionsOf c) = c"
  by (simp add: configOf_def optionsOf_def)

lemma configure_unfold:
  "configure options now s w =
     (initCurrentLogFile (s\<lparr>config := Some (configOf options), currentDate := formatDate now,
                           currentFileIndex := 0, currentFileSize := 0\<rparr>)
        (ensureLogsDirectory (s\<lparr>config := Some (configOf options)\<rparr>) w),
      ensureLogsDirectory (s\<lparr>config := Some (configOf options)\<rparr>) w)"
  by (simp add: configure_def Let_def ensureLogsDirectory_def)


section \<open>Facts about listings and deletions\<close>

lemma childName_Some:
  "childName dir p = Some n \<Longrightarrow> p = dir @ lit ''/'' @ n \<and> slash \<notin> set n"
  by (auto simp: childName_def Let_def startsWith_def lit_slash split: if_splits)
     (metis append_take_drop_id length_append_singleton append_assoc append_Cons append_Nil)

lemma childName_None_if_no_dir:
  "\<not> startsWith p (dir @ [slash]) \<Longrightarrow> childName dir p = None"
  by (simp add: childName_def Let_def)

lemma logPaths_eq:
  "map (\<lambda>file. dir @ lit ''/'' @ file)
     (filter (\<lambda>file. endsWith file (lit ''.log'')) (List.map_filter (childName dir) ks))
   = filter (isLogPath dir) ks"
proof (induction ks)
  case Nil
  then show ?case by (simp add: List.map_filter_simps)
next
  case (Cons k ks)
  then show ?case
    by (cases "childName dir k")
       (auto simp: List.map_filter_simps isLogPath_def dest: childName_Some)
qed

lemma getLogFiles_eq:
  assumes "config s = Some c"
  shows "getLogFiles s w =
           (if OpAccess (logsDirectory c) \<in> set (faults w) \<or> OpListFile (logsDirectory c) \<in> set (faults w)
            then [] else filter (isLogPath (logsDirectory c)) (map fst (files w)))"
proof (cases "dirExists w (logsDirectory c)")
  case True
  then show ?thesis using assms
    by (simp add: getLogFiles_def accessSync_def listFileSync_def logPaths_eq)
next
  case False
  then have "\<forall>p \<in> set (map fst (files w)). \<not> startsWith p (logsDirectory c @ [slash])"
    by (auto simp: dirExists_def)
  then have "filter (isLogPath (logsDirectory c)) (map fst (files w)) = []"
    by (auto simp: filter_empty_conv isLogPath_def childName_None_if_no_dir)
  then show ?thesis using assms False
    by (simp add: getLogFiles_def accessSync_def listFileSync_def)
qed

lemma getLogFiles_subset:
  "set (getLogFiles s w) \<subseteq> fst ` set (files w)"
proof (cases "config s")
  case None
  then show ?thesis by (simp add: getLogFiles_def)
next
  case (Some c)
  then show ?thesis by (auto simp: getLogFiles_eq)
qed

lemma getLogFiles_distinct:
  "distinct (map fst (files w)) \<Longrightarrow> distinct (getLogFiles s w)"
proof (cases "config s")
  case None
  then show ?thesis by (simp add: getLogFiles_def)
next
  case (Some c)
  assume "distinct (map fst (files w))"
  then show ?thesis using Some by (auto simp: getLogFiles_eq)
qed

lemma unlinkSync_ok:
  "p \<in> fst ` set (files w) \<Longrightarrow> OpUnlink p \<notin> set (faults w)
     \<Longrightarrow> unlinkSync w p = Inr (w\<lparr>files := filter (\<lambda>(q, g). q \<noteq> p) (files w)\<rparr>)"
  by (cases "map_of (files w) p") (auto simp: unlinkSync_def map_of_eq_None_iff)

lemma filter_filter_keys:
  "filter (\<lambda>(q, g). q \<notin> set ps) (filter (\<lambda>(q, g). q \<noteq> p) xs)
     = filter (\<lambda>(q, g). q \<notin> set (p # ps)) xs"
  by (induction xs) auto

lemma unlinkEach_ok:
  "distinct ps \<Longrightarrow> set ps \<subseteq> fst ` set (files w) \<Longrightarrow> \<forall>p \<in> set ps. OpUnlink p \<notin> set (faults w)
     \<Longrightarrow> unlinkEach ps w = (None, w\<lparr>files := filter (\<lambda>(q, g). q \<notin> set ps) (files w)\<rparr>)"
proof (induction ps arbitrary: w)
  case Nil
  then show ?case by simp
next
  case (Cons p ps)
  let ?w1 = "w\<lparr>files := filter (\<lambda>(q, g). q \<noteq> p) (files w)\<rparr>"
  have u: "unlinkSync w p = Inr ?w1" using Cons.prems by (intro unlinkSync_ok) auto
  have sub: "set ps \<subseteq> fst ` set (files ?w1)" using Cons.prems by (auto simp: image_iff) force
  have "unlinkEach ps ?w1 = (None, ?w1\<lparr>files := filter (\<lambda>(q, g). q \<notin> set ps) (files ?w1)\<rparr>)"
    using Cons.prems sub by (intro Cons.IH) auto
  then show ?case using u by (simp add: case_prod_beta)
qed

lemma unlinkEach_fail:
  "distinct pre \<Longrightarrow> set pre \<subseteq> fst ` set (files w) \<Longrightarrow> \<forall>q \<in> set pre. OpUnlink q \<notin> set (faults w)
     \<Longrightarrow> OpUnlink p \<in> set (faults w)
     \<Longrightarrow> unlinkEach (pre @ p # post) w
           = (Some (BusinessError (OpUnlink p)), w\<lparr>files := filter (\<lambda>(q, g). q \<notin> set pre) (files w)\<rparr>)"
proof (induction pre arbitrary: w)
  case Nil
  have "filter (\<lambda>(q, g). True) (files w) = files w" by (induction "files w") auto
  then show ?case using Nil by (simp add: unlinkSync_def)
next
  case (Cons x pre)
  let ?w1 = "w\<lparr>files := filter (\<lambda>(q, g). q \<noteq> x) (files w)\<rparr>"
  have u: "unlinkSync w x = Inr ?w1" using Cons.prems by (intro unlinkSync_ok) auto
  have sub: "set pre \<subseteq> fst ` set (files ?w1)" using Cons.prems by (auto simp: image_iff) force
  have "unlinkEach (pre @ p # post) ?w1
          = (Some (BusinessError (OpUnlink p)), ?w1\<lparr>files := filter (\<lambda>(q, g). q \<notin> set pre) (files ?w1)\<rparr>)"
    using Cons.prems sub by (intro Cons.IH) auto
  then show ?case using u by (simp add: case_prod_beta)
qed

lemma first_fault_split:
  "\<exists>p \<in> set ps. P p \<Longrightarrow> \<exists>pre p post. ps = pre @ p # post \<and> P p \<and> (\<forall>q \<in> set pre. \<not> P q)"
  by (metis split_list_first_prop)

lemma collectStats_eq:
  "collectStats w ps =
     map (\<lambda>p. (p, mtimeOf w p))
       (filter (\<lambda>p. \<not> endsWith p (lit ''-latest.log'') \<and> statOK w p) ps)"
  by (induction ps) (auto simp: statSync_def statOK_def mtimeOf_def split: option.splits)

lemma fold_tryUnlink_rest:
  "dirs (fold (\<lambda>x w. tryUnlink w (fst x)) xs w) = dirs w
   \<and> faults (fold (\<lambda>x w. tryUnlink w (fst x)) xs w) = faults w
   \<and> clock (fold (\<lambda>x w. tryUnlink w (fst x)) xs w) = clock w"
  by (induction xs arbitrary: w) (simp_all add: tryUnlink_rest)

lemma fold_tryUnlink_files:
  "files (fold (\<lambda>x w. tryUnlink w (fst x)) xs w)
     = filter (\<lambda>(q, g). q \<notin> fst ` set xs \<or> OpUnlink q \<in> set (faults w)) (files w)"
proof (induction xs arbitrary: w)
  case Nil
  then show ?case by (simp add: case_prod_beta)
next
  case (Cons x xs)
  show ?case
    by (simp add: Cons.IH tryUnlink_files tryUnlink_rest case_prod_beta)
       (auto intro!: filter_cong)
qed

lemma endsWith_iff: "endsWith s p \<longleftrightarrow> (\<exists>pre. s = pre @ p)"
proof
  assume "endsWith s p"
  then have "s = take (length s - length p) s @ p"
    by (metis append_take_drop_id endsWith_def)
  then show "\<exists>pre. s = pre @ p" ..
next
  assume "\<exists>pre. s = pre @ p"
  then show "endsWith s p" by (auto simp: endsWith_def)
qed

lemma endsWith_child:
  assumes "slash \<notin> set suf"
  shows "endsWith (dir @ [slash] @ n) suf \<longleftrightarrow> endsWith n suf"
proof
  assume "endsWith (dir @ [slash] @ n) suf"
  then obtain pre where e: "(dir @ [slash]) @ n = pre @ suf" by (auto simp: endsWith_iff)
  then obtain us where "(dir @ [slash] = pre @ us \<and> us @ n = suf) \<or> ((dir @ [slash]) @ us = pre \<and> n = us @ suf)"
    unfolding append_eq_append_conv2 by blast
  then show "endsWith n suf"
  proof
    assume a: "dir @ [slash] = pre @ us \<and> us @ n = suf"
    have "us = []"
    proof (rule ccontr)
      assume "us \<noteq> []"
      then have "last us = slash" using a by (metis last_appendR last_snoc)
      then have "slash \<in> set us" using \<open>us \<noteq> []\<close> by (metis last_in_set)
      then show False using a assms by auto
    qed
    then show ?thesis using a by (auto simp: endsWith_iff)
  next
    assume "(dir @ [slash]) @ us = pre \<and> n = us @ suf"
    then show ?thesis by (auto simp: endsWith_iff)
  qed
next
  assume "endsWith n suf"
  then show "endsWith (dir @ [slash] @ n) suf"
    by (auto simp: endsWith_iff)
qed

lemma slash_notin_latest: "slash \<notin> set (lit ''-latest.log'')"
  by (simp add: lit_def slash_def)

lemma collected_paths:
  assumes "config s = Some c"
  shows "map fst (retentionCandidates s w)
           = (if OpAccess (logsDirectory c) \<in> set (faults w) \<or> OpListFile (logsDirectory c) \<in> set (faults w)
              then []
              else filter (\<lambda>p. case childName (logsDirectory c) p of
                                  None \<Rightarrow> False
                                | Some n \<Rightarrow> endsWith n (lit ''.log'') \<and> \<not> endsWith n (lit ''-latest.log'')
                                            \<and> OpStat p \<notin> set (faults w))
                     (map fst (files w)))"
proof -
  have k: "statOK w p = (OpStat p \<notin> set (faults w))" if "p \<in> set (map fst (files w))" for p
    using that by (auto simp: statOK_def map_of_eq_None_iff image_iff)
  have e: "endsWith p (lit ''-latest.log'') = endsWith n (lit ''-latest.log'')"
    if "childName (logsDirectory c) p = Some n" for p n
    using childName_Some [OF that] endsWith_child [OF slash_notin_latest] by (simp add: lit_slash)
  show ?thesis
    using assms
    by (auto simp: retentionCandidates_def getLogFiles_eq collectStats_eq comp_def isLogPath_def k e
             intro!: filter_cong split: option.splits)
qed

lemma map_of_filter_keys:
  "p \<notin> V \<Longrightarrow> map_of (filter (\<lambda>(q, g). q \<notin> V) xs) p = map_of xs p"
  by (induction xs) auto

lemma cleanupOldLogFiles_pos:
  assumes "config s = Some c" and "0 < maximumNumberOfFiles c"
  shows "cleanupOldLogFiles s w =
           Some (fold (\<lambda>x w. tryUnlink w (fst x))
                   (take (Suc (length (retentionCandidates s w)) - nat (maximumNumberOfFiles c))
                      (sort_key snd (retentionCandidates s w))) w)"
  using assms by (simp add: cleanupOldLogFiles_def retentionCandidates_def cleanupLoop_pos Let_def)

lemma retentionCandidates_after:
  assumes "config s = Some c" and "faults w' = faults w"
      and "files w' = filter (\<lambda>(q, g). q \<notin> V) (files w)"
    shows "retentionCandidates s w' = filter (\<lambda>x. fst x \<notin> V) (retentionCandidates s w)"
proof -
  have g: "getLogFiles s w' = filter (\<lambda>q. q \<notin> V) (getLogFiles s w)"
    using assms
    by (auto simp: getLogFiles_eq filter_map comp_def case_prod_beta
             intro!: arg_cong [where f = "map fst"] filter_cong)
  have st: "statOK w' p = statOK w p" and mt: "mtimeOf w' p = mtimeOf w p" if "p \<notin> V" for p
    using that assms(2,3) by (simp_all add: statOK_def mtimeOf_def map_of_filter_keys)
  show ?thesis
    unfolding retentionCandidates_def g collectStats_eq
    by (auto simp: filter_map comp_def st mt intro!: filter_cong map_cong)
qed

lemma length_filter_victims:
  assumes "mset S = mset C"
  shows "length (filter (\<lambda>x. fst x \<notin> set (take k (map fst S))) C) \<le> length C - k"
proof -
  let ?P = "\<lambda>x. fst x \<notin> set (take k (map fst S))"
  have "mset (filter ?P C) = mset (filter ?P S)" using assms by simp
  then have "length (filter ?P C) = length (filter ?P S)" by (rule mset_eq_length)
  also have "\<dots> = length (filter ?P (take k S @ drop k S))" by simp
  also have "\<dots> = length (filter ?P (take k S)) + length (filter ?P (drop k S))"
    by (simp only: filter_append length_append)
  also have "filter ?P (take k S) = []"
    by (auto simp: filter_empty_conv take_map)
  finally have "length (filter ?P C) = length (filter ?P (drop k S))" by simp
  moreover have "length (filter ?P (drop k S)) \<le> length (drop k S)" by (rule length_filter_le)
  ultimately have "length (filter ?P C) \<le> length (drop k S)" by simp
  moreover have "length S = length C" using assms by (metis size_mset)
  ultimately show ?thesis by simp
qed

section \<open>Facts about names and indices\<close>







lemma length_lit [simp]: "length (lit s) = length s"
  by (simp add: lit_def)






lemma startsWith_append [simp]: "startsWith (a @ b) a"
  by (simp add: startsWith_def)













section \<open>The rotation index covers the indices on disk\<close>



lemma in_keysI: "(a, b) \<in> set xs \<Longrightarrow> a \<in> fst ` set xs"
  by force



lemma closeSync_effect: "closeSync w p = Inr w1 \<Longrightarrow> w1 = w"
  by (auto simp: closeSync_def split: if_splits)


















section \<open>Rotation decision (C1)\<close>



section \<open>Retention enforcement (C2)\<close>

text \<open>
  C2, as stated, fails. With a limit of 2 and three rotated files, the deletion of the
  oldest throws: the loop goes on and deletes the next one, but two rotated files
  remain, more than the limit less one. With a limit of 0 the loop never ends.
\<close>

theorem retention_bound_fails:
  "maximumNumberOfFiles exConfig - 1 = 1
   \<and> map_option (\<lambda>w. (map fst (files w), length (retentionCandidates exState w)))
        (cleanupOldLogFiles exState exWorldThreeFault)
       = Some ([lit ''d/t-latest.log'', lit ''d/t-3.log'', lit ''d/t-1.log''], 2)
   \<and> cleanupOldLogFiles exStateMax0 exWorldThree = None"
proof -
  have 1: "maximumNumberOfFiles exConfig - 1 = 1" by code_simp
  have 2: "map_option (\<lambda>w. (map fst (files w), length (retentionCandidates exState w)))
        (cleanupOldLogFiles exState exWorldThreeFault)
       = Some ([lit ''d/t-latest.log'', lit ''d/t-3.log'', lit ''d/t-1.log''], 2)"
    by code_simp
  have 3: "cleanupOldLogFiles exStateMax0 exWorldThree = None"
    by (simp add: cleanupOldLogFiles_def exStateMax0_def exState_def exConfig_def
                  cleanupLoop_nonpos Let_def)
  from 1 2 3 show ?thesis by simp
qed

text \<open>
  C2, amended. With a retention limit of at least 1, retention enforcement returns. It
  collects the candidates (the \<open>.log\<close> files of the directory that do not end in
  \<open>-latest.log\<close>, the live file among them, and that \<open>statSync\<close> can read), sorts them
  by modification time, oldest first and stable, and tries to delete the oldest ones,
  one more than the number by which the count exceeds the limit. A deletion that throws
  leaves its file in place and does not stop the deletions after it; nothing else in
  the store changes. When none of these deletions throws, at most the limit less one
  candidates remain.
\<close>

theorem cleanupOldLogFiles_retention:
  assumes "config s = Some c" and "0 < maximumNumberOfFiles c"
  shows "\<exists>w'. cleanupOldLogFiles s w = Some w'
           \<and> (let cands = sort_key snd (retentionCandidates s w);
                  victims = take (Suc (length cands) - nat (maximumNumberOfFiles c)) (map fst cands)
              in sorted (map snd cands) \<and> mset cands = mset (retentionCandidates s w)
                 \<and> (\<forall>t. filter (\<lambda>x. snd x = t) cands = filter (\<lambda>x. snd x = t) (retentionCandidates s w))
                 \<and> files w' = filter (\<lambda>(q, g). q \<notin> set victims \<or> OpUnlink q \<in> set (faults w)) (files w)
                 \<and> dirs w' = dirs w \<and> faults w' = faults w \<and> clock w' = clock w
                 \<and> ((\<forall>q \<in> set victims. OpUnlink q \<notin> set (faults w))
                      \<longrightarrow> int (length (retentionCandidates s w')) \<le> maximumNumberOfFiles c - 1))"
proof -
  let ?C = "retentionCandidates s w"
  let ?S = "sort_key snd ?C"
  let ?k = "Suc (length ?S) - nat (maximumNumberOfFiles c)"
  let ?V = "take ?k (map fst ?S)"
  let ?w' = "fold (\<lambda>x w. tryUnlink w (fst x)) (take ?k ?S) w"
  have r: "cleanupOldLogFiles s w = Some ?w'"
    using cleanupOldLogFiles_pos [OF assms] by simp
  have fl: "files ?w' = filter (\<lambda>(q, g). q \<notin> set ?V \<or> OpUnlink q \<in> set (faults w)) (files w)"
    by (simp add: fold_tryUnlink_files take_map)
  have rest: "dirs ?w' = dirs w \<and> faults ?w' = faults w \<and> clock ?w' = clock w"
    by (rule fold_tryUnlink_rest)
  have bound: "int (length (retentionCandidates s ?w')) \<le> maximumNumberOfFiles c - 1"
    if nf: "\<forall>q \<in> set ?V. OpUnlink q \<notin> set (faults w)"
  proof -
    have "files ?w' = filter (\<lambda>(q, g). q \<notin> set ?V) (files w)"
      unfolding fl using nf by (auto intro!: filter_cong)
    then have "retentionCandidates s ?w' = filter (\<lambda>x. fst x \<notin> set ?V) ?C"
      using retentionCandidates_after [OF assms(1), of ?w' w "set ?V"] rest by simp
    moreover have "length (filter (\<lambda>x. fst x \<notin> set ?V) ?C) \<le> length ?C - ?k"
      by (rule length_filter_victims) simp
    ultimately have "length (retentionCandidates s ?w') \<le> length ?C - ?k" by simp
    then show ?thesis using assms(2) by auto
  qed
  have srt: "sorted (map snd ?S)" by (rule sorted_sort_key)
  have ms: "mset ?S = mset ?C" by simp
  have stab: "filter (\<lambda>x. snd x = t) ?S = filter (\<lambda>x. snd x = t) ?C" for t
    by (rule sort_key_stable)
  show ?thesis
    unfolding Let_def using r fl rest bound srt ms stab by blast
qed

text \<open>
  Three rotated files against a limit of 2: the two oldest are deleted, the newest and
  the live file remain.
\<close>

theorem cleanupOldLogFiles_retention_witness:
  "config exState = Some exConfig \<and> 0 < maximumNumberOfFiles exConfig
   \<and> map_option (\<lambda>w. map fst (files w)) (cleanupOldLogFiles exState exWorldThree)
       = Some [lit ''d/t-latest.log'', lit ''d/t-3.log'']
   \<and> (\<exists>w'. cleanupOldLogFiles exState exWorldThree = Some w'
           \<and> int (length (retentionCandidates exState w')) \<le> 1)"
proof -
  have pos: "0 < maximumNumberOfFiles exConfig" by code_simp
  have mx: "maximumNumberOfFiles exConfig - 1 = 1" by code_simp
  have nf: "faults exWorldThree = []" by code_simp
  have 1: "map_option (\<lambda>w. map fst (files w)) (cleanupOldLogFiles exState exWorldThree)
       = Some [lit ''d/t-latest.log'', lit ''d/t-3.log'']"
    by code_simp
  from cleanupOldLogFiles_retention [OF exState_config pos, of exWorldThree]
  have 2: "\<exists>w'. cleanupOldLogFiles exState exWorldThree = Some w'
           \<and> int (length (retentionCandidates exState w')) \<le> 1"
    unfolding Let_def nf mx by auto
  from exState_config pos 1 2 show ?thesis by blast
qed

section \<open>Rotated names do not collide (C3)\<close>




section \<open>State recovery (C4)\<close>



section \<open>Size accounting of a write (C5)\<close>

text \<open>
  C5. The maximum file size is documented in bytes and recovery reads the size in bytes
  from \<open>statSync\<close>, but \<open>writeToFile\<close> adds \<open>content.length\<close>, the number of UTF-16
  code units, while it writes the UTF-8 bytes. On a fresh logger, writing the message
  \<open>caf\<close> followed by U+00E9 puts a 36-byte entry on disk and sets \<open>currentFileSize\<close> to
  35; recovery on the resulting store reads 36.
\<close>

theorem writeToFile_counts_code_units:
  "length (logEntry exDate Info (lit ''caf'' @ [0xE9])) = 35
   \<and> length (utf8_encode (logEntry exDate Info (lit ''caf'' @ [0xE9]))) = 36
   \<and> map_option (\<lambda>(s, w). (currentFileSize s,
                    map (\<lambda>(p, f). (p, length (content f))) (files w),
                    currentFileSize (fst (reconfigure exDate s w))))
        (writeLog Info (lit ''caf'' @ [0xE9]) exDate exDate exStateFresh exWorldEmpty)
       = Some (35, [(lit ''d/t-latest.log'', 36)], 36)"
  by code_simp

section \<open>A failed rename (C6)\<close>

text \<open>
  C6, as stated, fails: when the rename throws, control leaves the \<open>try\<close> block before
  \<open>currentFileSize\<close> is reset. Here the live file holds 60 bytes against a limit of 50
  and the rename throws; the rotation leaves the tracked size at 60, and after the write
  of a 38-byte entry it is 98.
\<close>

theorem rename_failure_size_not_reset:
  "rotationNeeded exConfig exState (formatDate exDate)
   \<and> accessSync exWorldRenameFault (currentLogFile exState) = Inr True
   \<and> renameSync exWorldRenameFault (currentLogFile exState) (lit ''d/t-1.log'')
       = Inl (BusinessError (OpRename (lit ''d/t-latest.log'') (lit ''d/t-1.log'')))
   \<and> map_option (\<lambda>(s, w). currentFileSize s) (rotateLogFile exState exWorldRenameFault)
       = Some 60
   \<and> map_option (\<lambda>(s, w). (currentFileSize s, map (\<lambda>(p, f). (p, length (content f))) (files w)))
        (writeLog Info (lit ''0123456'') exDate exDate exState exWorldRenameFault)
       = Some (98, [(lit ''d/t-latest.log'', 98)])"
  by code_simp

text \<open>
  C6, amended. When a rotation is triggered and the rename of the live file throws, the
  rotation index stays incremented, \<open>currentFileSize\<close> keeps its value, retention does
  not run and the store is untouched; \<open>write\<close> still returns and appends the entry to
  the file under the live name: when the three calls of the append succeed, the live
  file grows by the bytes of the entry and \<open>currentFileSize\<close> by the length of the
  entry.
\<close>

theorem rename_failure_write_proceeds:
  assumes "config s = Some c"
      and "rotationNeeded c s (formatDate now1)"
      and "s1 = (if dailyRolling c \<and> formatDate now1 \<noteq> currentDate s
                 then s\<lparr>currentDate := formatDate now1\<rparr> else s)
                  \<lparr>currentFileIndex := currentFileIndex s + 1\<rparr>"
      and "accessSync w (currentLogFile s) = Inr True"
      and "renameSync w (currentLogFile s) (newFileName c s1) = Inl err"
    shows "writeLog level message now1 now2 s w
             = Some (writeToFile (logEntry now2 level message) s1 w)
         \<and> currentFileSize s1 = currentFileSize s
         \<and> (\<forall>f. map_of (files w) (currentLogFile s) = Some f
                  \<and> currentLogFile s \<noteq> []
                  \<and> OpOpen (currentLogFile s) \<notin> set (faults w)
                  \<and> OpWrite (currentLogFile s) \<notin> set (faults w)
                  \<and> OpClose (currentLogFile s) \<notin> set (faults w)
               \<longrightarrow> (\<exists>s' w'. writeLog level message now1 now2 s w = Some (s', w')
                      \<and> currentFileSize s' = currentFileSize s + length (logEntry now2 level message)
                      \<and> map_of (files w') (currentLogFile s)
                          = Some (f\<lparr>content := content f @ utf8_encode (logEntry now2 level message),
                                    mtime := clock w\<rparr>)))"
proof -
  let ?s0 = "if dailyRolling c \<and> formatDate now1 \<noteq> currentDate s
             then s\<lparr>currentDate := formatDate now1\<rparr> else s"
  let ?e = "logEntry now2 level message"
  have cfg0: "config ?s0 = Some c" and live0: "currentLogFile ?s0 = currentLogFile s"
    using assms(1) by simp_all
  have s1: "s1 = ?s0\<lparr>currentFileIndex := currentFileIndex ?s0 + 1\<rparr>"
    using assms(3) by simp
  have rot: "rotateLogFile ?s0 w = Some (s1, w)"
    using cfg0 assms(4,5) live0 unfolding s1
    by (simp add: rotateLogFile_def del: if_split)
  have wl: "writeLog level message now1 now2 s w = Some (writeToFile ?e s1 w)"
    using writeLog_cases [OF assms(1), of level message now1 now2 w] assms(2) rot by simp
  have sz: "currentFileSize s1 = currentFileSize s" using assms(3) by simp
  have ok: "\<exists>s' w'. writeLog level message now1 now2 s w = Some (s', w')
                      \<and> currentFileSize s' = currentFileSize s + length ?e
                      \<and> map_of (files w') (currentLogFile s)
                          = Some (f\<lparr>content := content f @ utf8_encode ?e, mtime := clock w\<rparr>)"
    if h: "map_of (files w) (currentLogFile s) = Some f
                  \<and> currentLogFile s \<noteq> []
                  \<and> OpOpen (currentLogFile s) \<notin> set (faults w)
                  \<and> OpWrite (currentLogFile s) \<notin> set (faults w)
                  \<and> OpClose (currentLogFile s) \<notin> set (faults w)" for f
  proof -
    have c1: "config s1 \<noteq> None" and l1: "currentLogFile s1 = currentLogFile s"
      using assms(1,3) by simp_all
    show ?thesis
      using writeToFile_success [of s1 w f ?e] c1 l1 h wl sz
      by (simp add: map_of_update_key)
  qed
  from wl sz ok show ?thesis by blast
qed

theorem rename_failure_write_proceeds_witness:
  "config exState = Some exConfig
   \<and> rotationNeeded exConfig exState (formatDate exDate)
   \<and> accessSync exWorldRenameFault (currentLogFile exState) = Inr True
   \<and> renameSync exWorldRenameFault (currentLogFile exState)
        (newFileName exConfig (exState\<lparr>currentFileIndex := 1\<rparr>))
       = Inl (BusinessError (OpRename (lit ''d/t-latest.log'') (lit ''d/t-1.log'')))
   \<and> writeLog Info (lit ''0123456'') exDate exDate exState exWorldRenameFault
       = Some (writeToFile (logEntry exDate Info (lit ''0123456''))
                 (exState\<lparr>currentFileIndex := 1\<rparr>) exWorldRenameFault)
   \<and> currentFileSize (exState\<lparr>currentFileIndex := 1\<rparr>) = 60"
proof -
  have need: "rotationNeeded exConfig exState (formatDate exDate)" by code_simp
  have s1: "exState\<lparr>currentFileIndex := 1\<rparr>
              = (if dailyRolling exConfig \<and> formatDate exDate \<noteq> currentDate exState
                 then exState\<lparr>currentDate := formatDate exDate\<rparr> else exState)
                  \<lparr>currentFileIndex := currentFileIndex exState + 1\<rparr>"
    by code_simp
  have acc: "accessSync exWorldRenameFault (currentLogFile exState) = Inr True"
    by code_simp
  have ren: "renameSync exWorldRenameFault (currentLogFile exState)
               (newFileName exConfig (exState\<lparr>currentFileIndex := 1\<rparr>))
             = Inl (BusinessError (OpRename (lit ''d/t-latest.log'') (lit ''d/t-1.log'')))"
    by code_simp
  have sz: "currentFileSize exState = 60" by code_simp
  note h = rename_failure_write_proceeds [OF exState_config need s1 acc ren,
              of Info "lit ''0123456''" exDate]
  from h exState_config need acc ren sz show ?thesis by simp
qed

section \<open>Deleting all log files (C7)\<close>

text \<open>
  C7. On a store with one file per path, \<open>deleteLogFiles\<close> deletes the paths of
  \<open>getLogFiles\<close> in order. It returns \<open>true\<close> exactly when no deletion throws; then
  every listed file is gone and the result is that of \<open>reconfigure\<close> on the emptied
  store. When a deletion throws it returns \<open>false\<close> with the logger state unchanged:
  the files listed before the failing one are gone and stay gone, the failing one and
  those after it are still there.
\<close>

theorem deleteLogFiles_outcome:
  assumes "distinct (map fst (files w))"
      and "deleteLogFiles now s w = (ok, s', w')"
    shows "(ok \<longleftrightarrow> (\<forall>p \<in> set (getLogFiles s w). OpUnlink p \<notin> set (faults w)))
         \<and> (ok \<longrightarrow> (s', w') = reconfigure now s
                         (w\<lparr>files := filter (\<lambda>(q, g). q \<notin> set (getLogFiles s w)) (files w)\<rparr>))
         \<and> (\<not> ok \<longrightarrow> s' = s
               \<and> (\<exists>pre p post. getLogFiles s w = pre @ p # post
                     \<and> (\<forall>q \<in> set pre. OpUnlink q \<notin> set (faults w))
                     \<and> OpUnlink p \<in> set (faults w)
                     \<and> w' = w\<lparr>files := filter (\<lambda>(q, g). q \<notin> set pre) (files w)\<rparr>
                     \<and> set (p # post) \<inter> set pre = {}))"
proof (cases "\<forall>p \<in> set (getLogFiles s w). OpUnlink p \<notin> set (faults w)")
  case True
  have "unlinkEach (getLogFiles s w) w
          = (None, w\<lparr>files := filter (\<lambda>(q, g). q \<notin> set (getLogFiles s w)) (files w)\<rparr>)"
    using True getLogFiles_distinct [OF assms(1)] getLogFiles_subset
    by (intro unlinkEach_ok) auto
  then show ?thesis using assms(2) True by (simp add: deleteLogFiles_def)
next
  case False
  then obtain pre p post where sp: "getLogFiles s w = pre @ p # post"
    and f: "OpUnlink p \<in> set (faults w)" and nf: "\<forall>q \<in> set pre. OpUnlink q \<notin> set (faults w)"
    using first_fault_split [of "getLogFiles s w" "\<lambda>p. OpUnlink p \<in> set (faults w)"] by auto
  have d: "distinct (pre @ p # post)" using getLogFiles_distinct [OF assms(1), of s] sp by simp
  have sub: "set pre \<subseteq> fst ` set (files w)" using getLogFiles_subset [of s w] sp by auto
  have "unlinkEach (pre @ p # post) w
          = (Some (BusinessError (OpUnlink p)), w\<lparr>files := filter (\<lambda>(q, g). q \<notin> set pre) (files w)\<rparr>)"
    using d sub nf f by (intro unlinkEach_fail) auto
  then have "ok = False \<and> s' = s \<and> w' = w\<lparr>files := filter (\<lambda>(q, g). q \<notin> set pre) (files w)\<rparr>"
    using assms(2) sp by (simp add: deleteLogFiles_def)
  moreover have "set (p # post) \<inter> set pre = {}" using d by auto
  ultimately show ?thesis using False sp f nf by blast
qed

text \<open>
  In the mixed directory the third deletion throws: the live file and \<open>d/t-3.log\<close>
  are gone, the other three files remain and the result is \<open>false\<close>. Without the
  fault all four log files are deleted and the result is \<open>true\<close>.
\<close>

theorem deleteLogFiles_outcome_witness:
  "distinct (map fst (files exWorldMixedFault))
   \<and> deleteLogFiles exDate exState exWorldMixedFault
       = (False, exState,
          exWorldMixedFault\<lparr>files := [(lit ''d/t-2024-01-01.7.log'', \<lparr>content = [], mtime = 2\<rparr>),
                                     (lit ''d/other-9.log'', \<lparr>content = [], mtime = 3\<rparr>),
                                     (lit ''d/t-12.txt'', \<lparr>content = [], mtime = 4\<rparr>)]\<rparr>)
   \<and> (\<exists>p \<in> set (getLogFiles exState exWorldMixedFault). OpUnlink p \<in> set (faults exWorldMixedFault))
   \<and> (case deleteLogFiles exDate exState exWorldMixed of
         (ok, s, w) \<Rightarrow> (ok, currentFileSize s, currentFileIndex s, map fst (files w)))
       = (True, 0, 0, [lit ''d/t-12.txt''])"
proof -
  have d: "distinct (map fst (files exWorldMixedFault))" by code_simp
  have del: "deleteLogFiles exDate exState exWorldMixedFault
       = (False, exState,
          exWorldMixedFault\<lparr>files := [(lit ''d/t-2024-01-01.7.log'', \<lparr>content = [], mtime = 2\<rparr>),
                                     (lit ''d/other-9.log'', \<lparr>content = [], mtime = 3\<rparr>),
                                     (lit ''d/t-12.txt'', \<lparr>content = [], mtime = 4\<rparr>)]\<rparr>)"
    by code_simp
  from deleteLogFiles_outcome [OF d del]
  have ex: "\<exists>p \<in> set (getLogFiles exState exWorldMixedFault).
              OpUnlink p \<in> set (faults exWorldMixedFault)"
    by blast
  have ok: "(case deleteLogFiles exDate exState exWorldMixed of
         (ok, s, w) \<Rightarrow> (ok, currentFileSize s, currentFileIndex s, map fst (files w)))
       = (True, 0, 0, [lit ''d/t-12.txt''])"
    by code_simp
  from d del ex ok show ?thesis by blast
qed

section \<open>Recovery is idempotent (C8)\<close>

text \<open>
  C8. After \<open>configure\<close>, a \<open>reconfigure\<close> on the store that \<open>configure\<close> left behind
  changes neither \<open>currentFileSize\<close> nor \<open>currentFileIndex\<close>, keeps the configuration
  and leaves the store as it is.
\<close>

theorem reconfigure_idempotent:
  assumes "configure options now s w = (s1, w1)"
      and "reconfigure now' s1 w1 = (s2, w2)"
    shows "currentFileSize s2 = currentFileSize s1 \<and> currentFileIndex s2 = currentFileIndex s1
         \<and> config s2 = config s1 \<and> w2 = w1"
proof -
  let ?c = "configOf options"
  let ?sa = "s\<lparr>config := Some ?c\<rparr>"
  let ?live = "logsDirectory ?c @ lit ''/'' @ liveFileName (logPrefix ?c)"
  have w1: "w1 = ensureLogsDirectory ?sa w" using assms(1) by (simp add: configure_unfold)
  have c1: "config s1 = Some ?c" using assms(1)
    by (auto simp: configure_unfold initCurrentLogFile_other)
  have r: "reconfigure now' s1 w1 = configure (optionsOf ?c) now' s1 w1"
    using c1 by (simp add: reconfigure_def)
  have w2: "w2 = w1"
    using assms(2) unfolding r configure_unfold configOf_optionsOf
    by (auto simp: w1 ensureLogsDirectory_idem)
  have c2: "config s2 = Some ?c"
    using assms(2) unfolding r
    by (auto simp: configure_unfold initCurrentLogFile_other configOf_optionsOf)
  have "currentFileSize s2 = liveSizeOnDisk w1 ?live"
    using assms(2) w2 unfolding r configure_unfold configOf_optionsOf
    by (auto simp: initCurrentLogFile_size)
  moreover have "currentFileSize s1 = liveSizeOnDisk w1 ?live"
    using assms(1) by (auto simp: configure_unfold initCurrentLogFile_size)
  moreover have "currentFileIndex s2 = highestIndexOnDisk w1 (logsDirectory ?c) (logPrefix ?c)"
    using assms(2) w2 unfolding r configure_unfold configOf_optionsOf
    by (auto simp: initCurrentLogFile_index)
  moreover have "currentFileIndex s1 = highestIndexOnDisk w1 (logsDirectory ?c) (logPrefix ?c)"
    using assms(1) by (auto simp: configure_unfold initCurrentLogFile_index)
  ultimately show ?thesis using c1 c2 w2 by simp
qed

text \<open>
  On the directory with indices 3 and 7 and a live file of 60 bytes, \<open>configure\<close> and a
  later \<open>reconfigure\<close> both give size 60 and index 7.
\<close>

theorem reconfigure_idempotent_witness:
  "configure exOptions exDate exStateInit exWorldMixed
     = (exState\<lparr>currentFileIndex := 7\<rparr>, exWorldMixed)
   \<and> currentFileSize (fst (reconfigure exDate (exState\<lparr>currentFileIndex := 7\<rparr>) exWorldMixed)) = 60
   \<and> currentFileIndex (fst (reconfigure exDate (exState\<lparr>currentFileIndex := 7\<rparr>) exWorldMixed)) = 7
   \<and> snd (reconfigure exDate (exState\<lparr>currentFileIndex := 7\<rparr>) exWorldMixed) = exWorldMixed"
proof -
  have c: "configure exOptions exDate exStateInit exWorldMixed
             = (exState\<lparr>currentFileIndex := 7\<rparr>, exWorldMixed)"
    by code_simp
  have sz: "currentFileSize (exState\<lparr>currentFileIndex := 7\<rparr>) = 60"
   and ix: "currentFileIndex (exState\<lparr>currentFileIndex := 7\<rparr>) = 7"
    by (simp_all add: exState_def)
  from reconfigure_idempotent [OF c, of exDate
         "fst (reconfigure exDate (exState\<lparr>currentFileIndex := 7\<rparr>) exWorldMixed)"
         "snd (reconfigure exDate (exState\<lparr>currentFileIndex := 7\<rparr>) exWorldMixed)"]
  show ?thesis using c sz ix by simp
qed

section \<open>Every rotation takes a new index (C9)\<close>



section \<open>What retention may delete (C10)\<close>

text \<open>
  C10, as stated, fails: a \<open>.log\<close> file that \<open>statSync\<close> cannot read is skipped, so it
  is neither counted nor deleted. Here \<open>d/x.log\<close> is the only file; with a limit of 1 a
  counted file would be deleted, but the file is not a candidate and stays.
\<close>

theorem unreadable_log_file_not_counted:
  "childName (lit ''d'') (lit ''d/x.log'') = Some (lit ''x.log'')
   \<and> endsWith (lit ''x.log'') (lit ''.log'')
   \<and> \<not> endsWith (lit ''x.log'') (lit ''-latest.log'')
   \<and> retentionCandidates exStateMax1 exWorldStatFault = []
   \<and> cleanupOldLogFiles exStateMax1 exWorldStatFault = Some exWorldStatFault"
  by code_simp

text \<open>
  C10, amended. A file that retention enforcement deletes is an entry of the logs
  directory whose name ends in \<open>.log\<close> and not in \<open>-latest.log\<close>: a file ending in
  \<open>-latest.log\<close>, a file not ending in \<open>.log\<close> and a file outside the directory are
  never deleted. Conversely, when the directory can be listed, the candidates are all
  entries whose name ends in \<open>.log\<close> and not in \<open>-latest.log\<close> and that \<open>statSync\<close> can
  read, whatever their prefix.
\<close>

theorem cleanup_spares_and_counts:
  assumes "config s = Some c"
  shows "(\<forall>w' p f. cleanupOldLogFiles s w = Some w' \<and> (p, f) \<in> set (files w) \<and> (p, f) \<notin> set (files w')
            \<longrightarrow> (\<exists>n. childName (logsDirectory c) p = Some n \<and> endsWith n (lit ''.log'')
                      \<and> \<not> endsWith n (lit ''-latest.log'')))
       \<and> (OpAccess (logsDirectory c) \<notin> set (faults w) \<and> OpListFile (logsDirectory c) \<notin> set (faults w)
            \<longrightarrow> map fst (retentionCandidates s w)
                  = filter (\<lambda>p. case childName (logsDirectory c) p of
                                  None \<Rightarrow> False
                                | Some n \<Rightarrow> endsWith n (lit ''.log'') \<and> \<not> endsWith n (lit ''-latest.log'')
                                            \<and> OpStat p \<notin> set (faults w))
                      (map fst (files w)))"
proof (intro conjI allI impI)
  fix w' p f
  assume a: "cleanupOldLogFiles s w = Some w' \<and> (p, f) \<in> set (files w) \<and> (p, f) \<notin> set (files w')"
  then have pos: "0 < maximumNumberOfFiles c"
    using assms cleanupLoop_returns_pos by (auto simp: cleanupOldLogFiles_def Let_def)
  let ?C = "retentionCandidates s w"
  let ?S = "sort_key snd ?C"
  let ?k = "Suc (length ?C) - nat (maximumNumberOfFiles c)"
  have "w' = fold (\<lambda>x w. tryUnlink w (fst x)) (take ?k ?S) w"
    using a cleanupOldLogFiles_pos [OF assms pos, of w] by simp
  then have "files w' = filter (\<lambda>(q, g). q \<notin> fst ` set (take ?k ?S) \<or> OpUnlink q \<in> set (faults w)) (files w)"
    by (simp add: fold_tryUnlink_files)
  then have "p \<in> fst ` set (take ?k ?S)" using a by auto
  then have "p \<in> fst ` set ?S" by (meson image_mono in_set_takeD subsetD subsetI)
  then have "p \<in> set (map fst ?C)" by simp
  then show "\<exists>n. childName (logsDirectory c) p = Some n \<and> endsWith n (lit ''.log'')
                      \<and> \<not> endsWith n (lit ''-latest.log'')"
    unfolding collected_paths [OF assms] by (auto split: if_splits option.splits)
next
  assume "OpAccess (logsDirectory c) \<notin> set (faults w) \<and> OpListFile (logsDirectory c) \<notin> set (faults w)"
  then show "map fst (retentionCandidates s w)
                  = filter (\<lambda>p. case childName (logsDirectory c) p of
                                  None \<Rightarrow> False
                                | Some n \<Rightarrow> endsWith n (lit ''.log'') \<and> \<not> endsWith n (lit ''-latest.log'')
                                            \<and> OpStat p \<notin> set (faults w))
                      (map fst (files w))"
    by (simp add: collected_paths [OF assms])
qed

text \<open>
  In the mixed directory the candidates are the two rotated files of prefix \<open>t\<close> and
  the file \<open>other-9.log\<close> of another prefix; the live file and \<open>t-12.txt\<close> are not.
\<close>

theorem cleanup_spares_and_counts_witness:
  "config exState = Some exConfig
   \<and> OpAccess (logsDirectory exConfig) \<notin> set (faults exWorldMixed)
   \<and> OpListFile (logsDirectory exConfig) \<notin> set (faults exWorldMixed)
   \<and> map fst (retentionCandidates exState exWorldMixed)
       = [lit ''d/t-3.log'', lit ''d/t-2024-01-01.7.log'', lit ''d/other-9.log'']"
proof -
  have a: "OpAccess (logsDirectory exConfig) \<notin> set (faults exWorldMixed)"
   and l: "OpListFile (logsDirectory exConfig) \<notin> set (faults exWorldMixed)"
    by code_simp+
  from cleanup_spares_and_counts [OF exState_config, of exWorldMixed] a l
  have "map fst (retentionCandidates exState exWorldMixed)
          = filter (\<lambda>p. case childName (logsDirectory exConfig) p of
                          None \<Rightarrow> False
                        | Some n \<Rightarrow> endsWith n (lit ''.log'') \<and> \<not> endsWith n (lit ''-latest.log'')
                                    \<and> OpStat p \<notin> set (faults exWorldMixed))
              (map fst (files exWorldMixed))"
    by blast
  also have "\<dots> = [lit ''d/t-3.log'', lit ''d/t-2024-01-01.7.log'', lit ''d/other-9.log'']"
    by code_simp
  finally show ?thesis using exState_config a l by simp
qed

end
